theory Spec2Isabelle
  imports Main "HOL-Library.AList"
begin

section \<open>Python strings\<close>

text \<open>
  A Python \<open>str\<close> is modelled as a \<open>string\<close> (a list of characters). The model covers
  ASCII text: \<open>str.upper\<close>, \<open>str.lower\<close>, \<open>str.strip\<close> and the regular expression
  class \<open>\s\<close> act on ASCII code points as Python defines them there; a character
  outside ASCII is kept as it is and is never white space.
\<close>

definition lowercase_letters :: string where
  "lowercase_letters = ''abcdefghijklmnopqrstuvwxyz''"

definition uppercase_letters :: string where
  "uppercase_letters = ''ABCDEFGHIJKLMNOPQRSTUVWXYZ''"

definition upper_char :: "char \<Rightarrow> char" where
  "upper_char c =
     (case map_of (zip lowercase_letters uppercase_letters) c of
        Some u \<Rightarrow> u | None \<Rightarrow> c)"

definition lower_char :: "char \<Rightarrow> char" where
  "lower_char c =
     (case map_of (zip uppercase_letters lowercase_letters) c of
        Some l \<Rightarrow> l | None \<Rightarrow> c)"

definition upper :: "string \<Rightarrow> string" where
  "upper s = map upper_char s"

definition lower :: "string \<Rightarrow> string" where
  "lower s = map lower_char s"

text \<open>
  \<open>str.isspace\<close> on one ASCII character: tab, line feed, vertical tab, form feed,
  carriage return, the four separators \<open>0x1C\<close> .. \<open>0x1F\<close>, and the space.
\<close>

definition isspace :: "char \<Rightarrow> bool" where
  "isspace c =
     (c \<in> set [CHR 0x09, CHR 0x0A, CHR 0x0B, CHR 0x0C, CHR 0x0D,
                CHR 0x1C, CHR 0x1D, CHR 0x1E, CHR 0x1F, CHR 0x20])"

definition lstrip :: "string \<Rightarrow> string" where
  "lstrip s = dropWhile isspace s"

definition rstrip :: "string \<Rightarrow> string" where
  "rstrip s = rev (dropWhile isspace (rev s))"

definition strip :: "string \<Rightarrow> string" where
  "strip s = rstrip (lstrip s)"

definition startswith :: "string \<Rightarrow> string \<Rightarrow> bool" where
  "startswith s p = (take (length p) s = p)"

definition endswith :: "string \<Rightarrow> string \<Rightarrow> bool" where
  "endswith s p = (length p \<le> length s \<and> drop (length s - length p) s = p)"

text \<open>The substring test \<open>sub in s\<close>.\<close>

fun str_in :: "string \<Rightarrow> string \<Rightarrow> bool" where
  "str_in sub [] = (sub = [])"
| "str_in sub (c # cs) = (startswith (c # cs) sub \<or> str_in sub cs)"

section \<open>Regular expressions\<close>

text \<open>
  The fragment of Python's \<open>re\<close> syntax that the validator's patterns use: a literal
  character, \<open>.\<close> (any character but the line feed), \<open>\s\<close>, concatenation,
  alternation and \<open>*\<close>. \<open>Nothing\<close> matches no string and \<open>Eps\<close> the empty one; they
  arise in the derivatives.
\<close>

datatype regex =
    Nothing
  | Eps
  | Lit char
  | Dot
  | Space
  | Seq regex regex
  | Alt regex regex
  | Star regex

fun nullable :: "regex \<Rightarrow> bool" where
  "nullable Nothing = False"
| "nullable Eps = True"
| "nullable (Lit c) = False"
| "nullable Dot = False"
| "nullable Space = False"
| "nullable (Seq r s) = (nullable r \<and> nullable s)"
| "nullable (Alt r s) = (nullable r \<or> nullable s)"
| "nullable (Star r) = True"

fun mk_seq :: "regex \<Rightarrow> regex \<Rightarrow> regex" where
  "mk_seq Nothing s = Nothing"
| "mk_seq Eps s = s"
| "mk_seq r s = Seq r s"

fun mk_alt :: "regex \<Rightarrow> regex \<Rightarrow> regex" where
  "mk_alt Nothing s = s"
| "mk_alt r Nothing = r"
| "mk_alt r s = Alt r s"

text \<open>The derivative of a pattern by a first character.\<close>

fun deriv :: "char \<Rightarrow> regex \<Rightarrow> regex" where
  "deriv c Nothing = Nothing"
| "deriv c Eps = Nothing"
| "deriv c (Lit d) = (if c = d then Eps else Nothing)"
| "deriv c Dot = (if c = CHR 0x0A then Nothing else Eps)"
| "deriv c Space = (if isspace c then Eps else Nothing)"
| "deriv c (Seq r s) =
     (if nullable r then mk_alt (mk_seq (deriv c r) s) (deriv c s)
      else mk_seq (deriv c r) s)"
| "deriv c (Alt r s) = mk_alt (deriv c r) (deriv c s)"
| "deriv c (Star r) = mk_seq (deriv c r) (Star r)"

text \<open>\<open>re.match\<close>: some prefix of the string matches the pattern.\<close>

fun re_match :: "regex \<Rightarrow> string \<Rightarrow> bool" where
  "re_match r [] = nullable r"
| "re_match r (c # cs) = (nullable r \<or> re_match (deriv c r) cs)"

text \<open>\<open>re.search\<close>: the pattern matches at some position of the string.\<close>

fun re_search :: "regex \<Rightarrow> string \<Rightarrow> bool" where
  "re_search r [] = nullable r"
| "re_search r (c # cs) = (re_match r (c # cs) \<or> re_search r cs)"

text \<open>A literal word, and the alternation of a list of patterns.\<close>

fun word :: "string \<Rightarrow> regex" where
  "word [] = Eps"
| "word [c] = Lit c"
| "word (c # cs) = Seq (Lit c) (word cs)"

fun alts :: "regex list \<Rightarrow> regex" where
  "alts [] = Nothing"
| "alts [r] = r"
| "alts (r # rs) = Alt r (alts rs)"

fun seqs :: "regex list \<Rightarrow> regex" where
  "seqs [] = Eps"
| "seqs [r] = r"
| "seqs (r # rs) = Seq r (seqs rs)"

section \<open>The validator\<close>

definition dangerous_keywords :: "string list" where
  "dangerous_keywords =
     [''DROP'', ''DELETE'', ''INSERT'', ''UPDATE'', ''ALTER'', ''CREATE'', ''TRUNCATE'',
      ''EXEC'', ''EXECUTE'', ''REPLACE'', ''MERGE'', ''PRAGMA'', ''ATTACH'', ''DETACH'']"

text \<open>
  The six patterns, in the order of the source:
  \<^verbatim>\<open>;\s*(DROP|DELETE|INSERT|UPDATE)\<close>, \<^verbatim>\<open>--\<close>, \<^verbatim>\<open>/\*.*\*/\<close>, \<^verbatim>\<open>UNION.*SELECT\<close>,
  \<^verbatim>\<open>OR.*1\s*=\s*1\<close> and \<^verbatim>\<open>AND.*1\s*=\s*1\<close>.
\<close>

definition pat_semicolon :: regex where
  "pat_semicolon =
     seqs [Lit CHR '';'', Star Space,
           alts [word ''DROP'', word ''DELETE'', word ''INSERT'', word ''UPDATE'']]"

definition pat_line_comment :: regex where
  "pat_line_comment = word ''--''"

definition pat_block_comment :: regex where
  "pat_block_comment = seqs [word ''/*'', Star Dot, word ''*/'']"

definition pat_union :: regex where
  "pat_union = seqs [word ''UNION'', Star Dot, word ''SELECT'']"

definition pat_or :: regex where
  "pat_or =
     seqs [word ''OR'', Star Dot, Lit CHR ''1'', Star Space, Lit CHR ''='',
           Star Space, Lit CHR ''1'']"

definition pat_and :: regex where
  "pat_and =
     seqs [word ''AND'', Star Dot, Lit CHR ''1'', Star Space, Lit CHR ''='',
           Star Space, Lit CHR ''1'']"

definition injection_patterns :: "regex list" where
  "injection_patterns =
     [pat_semicolon, pat_line_comment, pat_block_comment, pat_union, pat_or, pat_and]"

text \<open>
  The keyword test of the loop body:
  \<^verbatim>\<open>f' {keyword} ' in f' {query_upper} ' or query_upper.startswith(f'{keyword} ')\<close>.
\<close>

definition keyword_hit :: "string \<Rightarrow> string \<Rightarrow> bool" where
  "keyword_hit query_upper keyword =
     (str_in ('' '' @ keyword @ '' '') ('' '' @ query_upper @ '' '')
      \<or> startswith query_upper (keyword @ '' ''))"

text \<open>
  \<open>validate_sql_query\<close> returns the pair of the source: the verdict and its message.
  Each \<open>for\<close> loop returns at its first hit, so the keyword reported is the first one
  of the list that hits.
\<close>

definition validate_sql_query :: "string \<Rightarrow> bool \<times> string" where
  "validate_sql_query query =
     (if query = [] \<or> strip query = [] then (False, ''Query cannot be empty'')
      else
        let query_upper = upper (strip query) in
        if \<not> startswith query_upper ''SELECT''
        then (False, ''Security: Only SELECT queries are allowed'')
        else
          case find (keyword_hit query_upper) dangerous_keywords of
            Some keyword \<Rightarrow> (False, ''Forbidden keyword detected: '' @ keyword)
          | None \<Rightarrow>
              if list_ex (\<lambda>pattern. re_search pattern query_upper) injection_patterns
              then (False, ''Potential SQL injection detected'')
              else (True, ''Query passed security validation''))"

section \<open>The fallback generator\<close>

text \<open>\<open>any(keyword in question_lower for keyword in phrases)\<close>.\<close>

definition any_in :: "string list \<Rightarrow> string \<Rightarrow> bool" where
  "any_in phrases question_lower = list_ex (\<lambda>keyword. str_in keyword question_lower) phrases"

text \<open>The canned statements. A statement that ends in a quote has it appended.\<close>

definition sql_active_customers :: string where
  "sql_active_customers = ''SELECT * FROM customers WHERE status = 'active'' @ [CHR 0x27]"

definition sql_all_customers :: string where
  "sql_all_customers = ''SELECT * FROM customers''"

definition sql_count_customers :: string where
  "sql_count_customers = ''SELECT COUNT(*) as customer_count FROM customers''"

definition sql_all_orders :: string where
  "sql_all_orders = ''SELECT * FROM orders ORDER BY order_date DESC''"

definition sql_count_orders :: string where
  "sql_count_orders = ''SELECT COUNT(*) as order_count FROM orders''"

definition sql_electronics_products :: string where
  "sql_electronics_products =
     ''SELECT * FROM products WHERE category = 'Electronics'' @ [CHR 0x27]"

definition sql_all_products :: string where
  "sql_all_products = ''SELECT * FROM products''"

definition sql_active_employees :: string where
  "sql_active_employees = ''SELECT * FROM employees WHERE status = 'active'' @ [CHR 0x27]"

definition sql_electronics_revenue :: string where
  "sql_electronics_revenue =
     ''SELECT SUM(total_amount) as total_revenue FROM orders WHERE category = 'Electronics'' @
     [CHR 0x27]"

definition sql_top_customers :: string where
  "sql_top_customers =
     ''SELECT c.name, c.email, SUM(o.total_amount) as total_spent FROM customers c '' @
     ''JOIN orders o ON c.id = o.customer_id GROUP BY c.id, c.name, c.email '' @
     ''ORDER BY total_spent DESC LIMIT 5''"

text \<open>
  The \<open>if\<close>/\<open>elif\<close> chain of \<open>generate_fallback_sql\<close>, in the order of the source. The
  result \<open>None\<close> is Python's \<open>None\<close>, returned when no branch fires.
\<close>

definition generate_fallback_sql :: "string \<Rightarrow> string option" where
  "generate_fallback_sql user_question =
     (let question_lower = lower user_question in
      if any_in [''all customers'', ''show customers'', ''list customers''] question_lower
      then (if str_in ''active'' question_lower
            then Some sql_active_customers
            else Some sql_all_customers)
      else if any_in [''count customers'', ''how many customers''] question_lower
      then Some sql_count_customers
      else if any_in [''all orders'', ''show orders'', ''list orders''] question_lower
      then Some sql_all_orders
      else if any_in [''count orders'', ''how many orders''] question_lower
      then Some sql_count_orders
      else if any_in [''all products'', ''show products'', ''list products''] question_lower
      then (if str_in ''electronics'' question_lower
            then Some sql_electronics_products
            else Some sql_all_products)
      else if any_in [''all employees'', ''show employees'', ''list employees''] question_lower
      then Some sql_active_employees
      else if str_in ''revenue'' question_lower \<and> str_in ''electronics'' question_lower
      then Some sql_electronics_revenue
      else if str_in ''top'' question_lower \<and> str_in ''customers'' question_lower
      then Some sql_top_customers
      else None)"

text \<open>
  The one effect of \<open>generate_fallback_sql\<close> is the warning it logs when no branch
  fires. The logged variant threads the log (the list of messages written so far)
  through a call.
\<close>

definition generate_fallback_sql_logged ::
    "string list \<Rightarrow> string \<Rightarrow> string option \<times> string list" where
  "generate_fallback_sql_logged logged user_question =
     (case generate_fallback_sql user_question of
        Some sql \<Rightarrow> (Some sql, logged)
      | None \<Rightarrow>
          (None, logged @ [''No fallback SQL pattern matched for: '' @ user_question]))"

section \<open>The response sanitizer\<close>

text \<open>
  \<^verbatim>\<open>re.sub(r'^```sql\n?', '', s)\<close>: an opening fence at the start of the text goes,
  with the line feed after it when there is one.
\<close>

definition strip_fence_open :: "string \<Rightarrow> string" where
  "strip_fence_open s =
     (if startswith s ''```sql''
      then (let r = drop 6 s in if startswith r [CHR 0x0A] then drop 1 r else r)
      else s)"

text \<open>
  \<^verbatim>\<open>re.sub(r'\n?```$', '', s)\<close>: a closing fence at the end of the text goes, with the
  line feed before it when there is one. \<open>$\<close> also matches before a line feed that
  ends the text; that line feed stays.
\<close>

definition strip_fence_close :: "string \<Rightarrow> string" where
  "strip_fence_close s =
     (if endswith s (CHR 0x0A # ''```'') then take (length s - 4) s
      else if endswith s ''```'' then take (length s - 3) s
      else if endswith s (CHR 0x0A # ''```'' @ [CHR 0x0A]) then take (length s - 5) s @ [CHR 0x0A]
      else if endswith s (''```'' @ [CHR 0x0A]) then take (length s - 4) s @ [CHR 0x0A]
      else s)"

definition sanitize :: "string \<Rightarrow> string" where
  "sanitize content = strip (strip_fence_close (strip_fence_open (strip content)))"

section \<open>The query executor\<close>

text \<open>
  A column value as \<open>sqlite3\<close> hands it to Python: \<open>None\<close>, an \<open>int\<close>, a \<open>float\<close>, a
  \<open>str\<close> or \<open>bytes\<close>. The type of floats is a parameter \<open>'f\<close>; Python's \<open>str\<close> and
  \<open>round(_, 2)\<close> on floats are the fields \<open>float_str\<close> and \<open>float_round2\<close> of the
  environment below.
\<close>

datatype 'f sql_value =
    SqlNull
  | SqlInt int
  | SqlFloat 'f
  | SqlText string
  | SqlBlob string

text \<open>A \<open>dict\<close> of a row, in column order: its keys are distinct.\<close>

type_synonym 'f row_dict = "(string \<times> 'f sql_value) list"

datatype db_error = SqliteError string | OtherError string

datatype component_call =
    ModelCall string
  | FallbackCall string
  | ValidateCall string
  | ExecuteCall string

text \<open>
  What a request meets outside the program: whether the completion client was
  configured at start-up (\<open>groq_client\<close> is not \<open>None\<close>); what the \<open>try\<close> block of
  \<open>generate_sql_from_natural_language\<close> obtains for a question (\<open>None\<close> when any of its
  steps raises, otherwise the content of the completion); what the storage engine
  returns for a statement (the rows as \<open>dict(row)\<close>, or the exception raised); and the
  two float operations.
\<close>

record 'f env =
  groq_client :: bool
  model_reply :: "string \<Rightarrow> string option"
  db_execute :: "string \<Rightarrow> db_error + 'f row_dict list"
  float_str :: "'f \<Rightarrow> string"
  float_round2 :: "'f \<Rightarrow> 'f"

text \<open>\<open>isinstance(value, float) and '.' in str(value)\<close>.\<close>

fun needs_rounding :: "('f \<Rightarrow> string) \<Rightarrow> 'f sql_value \<Rightarrow> bool" where
  "needs_rounding to_str (SqlFloat x) = str_in ''.'' (to_str x)"
| "needs_rounding to_str v = False"

fun rounded :: "('f \<Rightarrow> 'f) \<Rightarrow> 'f sql_value \<Rightarrow> 'f sql_value" where
  "rounded round2 (SqlFloat x) = SqlFloat (round2 x)"
| "rounded round2 v = v"

text \<open>
  The inner loop: for each \<open>(key, value)\<close> of the row's items, \<open>row_dict[key]\<close> is
  assigned the rounded value when the test holds.
\<close>

definition format_step ::
    "'f env \<Rightarrow> string \<times> 'f sql_value \<Rightarrow> 'f row_dict \<Rightarrow> 'f row_dict" where
  "format_step e item row =
     (if needs_rounding (float_str e) (snd item)
      then AList.update (fst item) (rounded (float_round2 e) (snd item)) row
      else row)"

definition format_row :: "'f env \<Rightarrow> 'f row_dict \<Rightarrow> 'f row_dict" where
  "format_row e row = fold (format_step e) row row"

text \<open>
  \<open>execute_query\<close> returns \<open>(True, data)\<close>, here \<open>Inr data\<close>, or \<open>(False, message)\<close>,
  here \<open>Inl message\<close>.
\<close>

definition execute_query :: "'f env \<Rightarrow> string \<Rightarrow> string + 'f row_dict list" where
  "execute_query e sql_query =
     (case db_execute e sql_query of
        Inr rows \<Rightarrow> Inr (map (format_row e) rows)
      | Inl (SqliteError m) \<Rightarrow> Inl (''Database error: '' @ m)
      | Inl (OtherError m) \<Rightarrow> Inl (''Unexpected error: '' @ m))"

section \<open>The request handler\<close>

text \<open>
  \<open>generate_sql_from_natural_language\<close> returns its candidate together with the
  calls it made: the model path, the fallback generator.
\<close>

definition generate_sql_from_natural_language ::
    "'f env \<Rightarrow> string \<Rightarrow> string option \<times> component_call list" where
  "generate_sql_from_natural_language e user_question =
     (if \<not> groq_client e
      then (generate_fallback_sql user_question, [FallbackCall user_question])
      else
        case model_reply e user_question of
          Some content \<Rightarrow> (Some (sanitize content), [ModelCall user_question])
        | None \<Rightarrow>
            (generate_fallback_sql user_question,
             [ModelCall user_question, FallbackCall user_question]))"

text \<open>
  The JSON response of \<open>chat\<close> and its HTTP status. The fields \<open>message\<close> and
  \<open>timestamp\<close> of the successful response are left out.
\<close>

record 'f response =
  http_status :: nat
  success :: bool
  error :: "string option"
  suggestion :: "string option"
  generated_sql :: "string option"
  results :: "'f row_dict list option"
  result_count :: "nat option"

definition failure :: "nat \<Rightarrow> string \<Rightarrow> 'f response" where
  "failure code msg =
     \<lparr>http_status = code, success = False, error = Some msg, suggestion = None,
      generated_sql = None, results = None, result_count = None\<rparr>"

definition rephrase_suggestion :: string where
  "rephrase_suggestion =
     ''Try asking: '' @ [CHR 0x22] @ ''Show all customers'' @ [CHR 0x22] @ '' or '' @
     [CHR 0x22] @ ''How many orders were placed?'' @ [CHR 0x22]"

text \<open>
  The request body is what \<open>request.get_json()\<close> returns: \<open>None\<close>, or a JSON object
  as the list of its members (member values are strings). \<open>chat\<close> returns the
  response and the component calls of the request, in order.
\<close>

definition chat ::
    "'f env \<Rightarrow> (string \<times> string) list option \<Rightarrow> 'f response \<times> component_call list" where
  "chat e body =
     (case body of
        None \<Rightarrow> (failure 400 ''Invalid JSON data'', [])
      | Some members \<Rightarrow>
          if members = [] then (failure 400 ''Invalid JSON data'', [])
          else
            let user_message =
                  strip (case map_of members ''message'' of Some m \<Rightarrow> m | None \<Rightarrow> [])
            in
            if user_message = [] then (failure 400 ''Message cannot be empty'', [])
            else
              let (sql_query, calls) = generate_sql_from_natural_language e user_message in
              if sql_query = None \<or> sql_query = Some []
              then
                ((failure 200
                    (''Failed to generate SQL query.'' @
                     (if \<not> groq_client e
                      then '' Groq client is not initialized - please check your API key.''
                      else '' Please try rephrasing your question.'')))
                   \<lparr>suggestion := Some rephrase_suggestion\<rparr>,
                 calls)
              else
                let sql = the sql_query;
                    (is_valid, validation_message) = validate_sql_query sql
                in
                if \<not> is_valid
                then ((failure 200 validation_message)\<lparr>generated_sql := Some sql\<rparr>,
                      calls @ [ValidateCall sql])
                else
                  case execute_query e sql of
                    Inl msg \<Rightarrow>
                      ((failure 200 msg)\<lparr>generated_sql := Some sql\<rparr>,
                       calls @ [ValidateCall sql, ExecuteCall sql])
                  | Inr rows \<Rightarrow>
                      (\<lparr>http_status = 200, success = True, error = None, suggestion = None,
                        generated_sql = Some sql, results = Some rows,
                        result_count = Some (length rows)\<rparr>,
                       calls @ [ValidateCall sql, ExecuteCall sql]))"

section \<open>Notions of the specification\<close>

text \<open>
  A word occurs in a string as a delimited token when a delimiter, or the end of the
  string, stands on each side of an occurrence. The delimiter is a parameter: the
  specification speaks of white space, the keyword test of the validator of the
  space character.
\<close>

definition delimited_by :: "(char \<Rightarrow> bool) \<Rightarrow> string \<Rightarrow> string \<Rightarrow> bool" where
  "delimited_by d kw s =
     (\<exists>pre post. s = pre @ kw @ post \<and> (pre = [] \<or> d (last pre)) \<and> (post = [] \<or> d (hd post)))"

definition is_blank :: "char \<Rightarrow> bool" where
  "is_blank c = (c = CHR '' '')"



text \<open>
  The fallback generator as the specification describes it: a fixed, ordered table
  of triggers with their statements, of which the first trigger that fires wins.
\<close>

type_synonym trigger = "(string \<Rightarrow> bool) \<times> (string \<Rightarrow> string)"

definition fallback_table :: "trigger list" where
  "fallback_table =
     [(any_in [''all customers'', ''show customers'', ''list customers''],
       \<lambda>q. if str_in ''active'' q then sql_active_customers else sql_all_customers),
      (any_in [''count customers'', ''how many customers''], \<lambda>q. sql_count_customers),
      (any_in [''all orders'', ''show orders'', ''list orders''], \<lambda>q. sql_all_orders),
      (any_in [''count orders'', ''how many orders''], \<lambda>q. sql_count_orders),
      (any_in [''all products'', ''show products'', ''list products''],
       \<lambda>q. if str_in ''electronics'' q then sql_electronics_products else sql_all_products),
      (any_in [''all employees'', ''show employees'', ''list employees''],
       \<lambda>q. sql_active_employees),
      (\<lambda>q. str_in ''revenue'' q \<and> str_in ''electronics'' q, \<lambda>q. sql_electronics_revenue),
      (\<lambda>q. str_in ''top'' q \<and> str_in ''customers'' q, \<lambda>q. sql_top_customers)]"

fun first_match :: "trigger list \<Rightarrow> string \<Rightarrow> string option" where
  "first_match [] q = None"
| "first_match ((fires, statement) # rest) q =
     (if fires q then Some (statement q) else first_match rest q)"





text \<open>
  The value the specification asks for in place of a column value: a float whose
  text has a \<open>.\<close> rounded to two places, anything else as it is.
\<close>

definition normalized :: "'f env \<Rightarrow> 'f sql_value \<Rightarrow> 'f sql_value" where
  "normalized e v =
     (case v of
        SqlFloat x \<Rightarrow>
          if str_in ''.'' (float_str e x) then SqlFloat (float_round2 e x) else SqlFloat x
      | _ \<Rightarrow> v)"

text \<open>
  Two environments for concrete runs. Floats are written as their text. In the
  first the completion client is missing and the table \<open>products\<close> has one row; in the
  second the client answers every question with the same text.
\<close>

definition sample_row :: "string row_dict" where
  "sample_row =
     [(''id'', SqlInt 3), (''name'', SqlText ''Wireless Mouse Pro''),
      (''price'', SqlFloat ''79.989''), (''weight'', SqlFloat ''1e+16''),
      (''supplier'', SqlNull)]"

definition offline_env :: "string env" where
  "offline_env =
     \<lparr>groq_client = False,
      model_reply = (\<lambda>q. None),
      db_execute = (\<lambda>sql. if sql = ''SELECT * FROM products'' then Inr [sample_row]
                           else Inl (SqliteError ''incomplete input'')),
      float_str = (\<lambda>x. x),
      float_round2 = (\<lambda>x. if x = ''79.989'' then ''79.99'' else x)\<rparr>"

definition online_env :: "string \<Rightarrow> string env" where
  "online_env reply = offline_env\<lparr>groq_client := True, model_reply := (\<lambda>q. Some reply)\<rparr>"

section \<open>Substrings and delimited tokens\<close>

lemma startswith_iff: "startswith s p \<longleftrightarrow> (\<exists>post. s = p @ post)"
  unfolding startswith_def
  by (metis append_eq_conv_conj append_take_drop_id)

lemma str_in_iff: "str_in sub s \<longleftrightarrow> (\<exists>pre post. s = pre @ sub @ post)"
proof (induction s)
  case Nil
  then show ?case by auto
next
  case (Cons c cs)
  show ?case
  proof
    assume "str_in sub (c # cs)"
    then consider "startswith (c # cs) sub" | "str_in sub cs" by auto
    then show "\<exists>pre post. c # cs = pre @ sub @ post"
    proof cases
      case 1
      then obtain post where "c # cs = sub @ post" by (auto simp: startswith_iff)
      then have "c # cs = [] @ sub @ post" by simp
      then show ?thesis by blast
    next
      case 2
      then obtain pre post where "cs = pre @ sub @ post" using Cons.IH by auto
      then have "c # cs = (c # pre) @ sub @ post" by simp
      then show ?thesis by blast
    qed
  next
    assume "\<exists>pre post. c # cs = pre @ sub @ post"
    then obtain pre post where eq: "c # cs = pre @ sub @ post" by auto
    show "str_in sub (c # cs)"
    proof (cases pre)
      case Nil
      with eq have "startswith (c # cs) sub" by (auto simp: startswith_iff)
      then show ?thesis by simp
    next
      case (Cons a pre')
      with eq have "cs = pre' @ sub @ post" by simp
      then show ?thesis using Cons.IH by auto
    qed
  qed
qed

text \<open>
  The padded test \<open>' kw ' in ' s '\<close> holds exactly when \<open>kw\<close> occurs in \<open>s\<close> between
  spaces or ends of the string; the \<open>startswith\<close> disjunct adds nothing to it.
\<close>

lemma padded_in_imp_delimited:
  assumes "str_in ('' '' @ kw @ '' '') ('' '' @ s @ '' '')"
  shows "delimited_by is_blank kw s"
proof -
  from assms obtain pre post where eq: "'' '' @ s @ '' '' = pre @ ('' '' @ kw @ '' '') @ post"
    unfolding str_in_iff by blast
  show ?thesis
  proof (cases pre)
    case Nil
    with eq have e1: "s @ '' '' = kw @ '' '' @ post" by simp
    show ?thesis
    proof (cases post rule: rev_cases)
      case Nil
      with e1 have "s = [] @ kw @ []" by simp
      then show ?thesis unfolding delimited_by_def by blast
    next
      case (snoc post' x)
      with e1 have "s = [] @ kw @ ('' '' @ post')" by simp
      then show ?thesis unfolding delimited_by_def is_blank_def
        by (metis hd_append2 list.sel(1) not_Cons_self2 append_Cons append_Nil)
    qed
  next
    case (Cons a pre')
    with eq have e1: "s @ '' '' = pre' @ '' '' @ kw @ '' '' @ post" by auto
    show ?thesis
    proof (cases post rule: rev_cases)
      case Nil
      with e1 have "s = (pre' @ '' '') @ kw @ []" by simp
      then show ?thesis unfolding delimited_by_def is_blank_def
        by (metis last_snoc append_Cons append_Nil)
    next
      case (snoc post' x)
      with e1 have "s @ '' '' = (pre' @ '' '' @ kw @ '' '' @ post') @ [x]" by simp
      then have "s = (pre' @ '' '') @ kw @ ('' '' @ post')" by simp
      then show ?thesis unfolding delimited_by_def is_blank_def
        by (metis last_snoc list.sel(1) append_Cons append_Nil)
    qed
  qed
qed

lemma delimited_imp_padded_in:
  assumes "delimited_by is_blank kw s"
  shows "str_in ('' '' @ kw @ '' '') ('' '' @ s @ '' '')"
proof -
  from assms obtain pre post where s: "s = pre @ kw @ post"
    and l: "pre = [] \<or> last pre = CHR '' ''" and r: "post = [] \<or> hd post = CHR '' ''"
    unfolding delimited_by_def is_blank_def by blast
  from l obtain pre' where pre: "'' '' @ pre = pre' @ '' ''"
  proof
    assume "pre = []" then have "'' '' @ pre = [] @ '' ''" by simp
    then show ?thesis using that by blast
  next
    assume a: "last pre = CHR '' ''"
    show ?thesis
    proof (cases pre rule: rev_cases)
      case Nil then have "'' '' @ pre = [] @ '' ''" by simp
      then show ?thesis using that by blast
    next
      case (snoc p x)
      with a have "'' '' @ pre = ('' '' @ p) @ '' ''" by simp
      then show ?thesis using that by blast
    qed
  qed
  from r obtain post' where post: "post @ '' '' = '' '' @ post'"
  proof
    assume "post = []" then have "post @ '' '' = '' '' @ []" by simp
    then show ?thesis using that by blast
  next
    assume a: "hd post = CHR '' ''"
    show ?thesis
    proof (cases post)
      case Nil then have "post @ '' '' = '' '' @ []" by simp
      then show ?thesis using that by blast
    next
      case (Cons x p)
      with a have "post @ '' '' = '' '' @ (p @ '' '')" by simp
      then show ?thesis using that by blast
    qed
  qed
  have "'' '' @ s @ '' '' = ('' '' @ pre) @ kw @ (post @ '' '')" using s by simp
  also have "\<dots> = pre' @ ('' '' @ kw @ '' '') @ post'" using pre post by simp
  finally show ?thesis unfolding str_in_iff by blast
qed

lemma leading_imp_delimited:
  assumes "startswith s (kw @ '' '')"
  shows "delimited_by is_blank kw s"
proof -
  from assms obtain post where "s = [] @ kw @ ('' '' @ post)" by (auto simp: startswith_iff)
  then show ?thesis unfolding delimited_by_def is_blank_def
    by (metis list.sel(1) append_Cons append_Nil)
qed

lemma keyword_hit_iff: "keyword_hit s kw \<longleftrightarrow> delimited_by is_blank kw s"
  unfolding keyword_hit_def
  using padded_in_imp_delimited delimited_imp_padded_in leading_imp_delimited by blast

section \<open>The matcher finds exactly the matches\<close>











section \<open>The verdict of the validator\<close>

lemma strip_Nil: "strip [] = []"
  by (simp add: strip_def rstrip_def lstrip_def)

lemma empty_test: "(q = [] \<or> strip q = []) \<longleftrightarrow> strip q = []"
  using strip_Nil by auto

lemma find_keyword_None:
  "find (keyword_hit s) kws = None \<longleftrightarrow> (\<forall>kw\<in>set kws. \<not> keyword_hit s kw)"
  by (auto simp: find_None_iff)

lemma find_keyword_Some:
  "find (keyword_hit s) kws = Some kw \<Longrightarrow> kw \<in> set kws \<and> keyword_hit s kw"
  by (auto simp: find_Some_iff)

text \<open>A candidate is accepted exactly when it passes the four rules, in their order.\<close>

lemma validate_accepted_iff:
  "fst (validate_sql_query C) \<longleftrightarrow>
     strip C \<noteq> [] \<and> startswith (upper (strip C)) ''SELECT'' \<and>
     (\<forall>kw\<in>set dangerous_keywords. \<not> keyword_hit (upper (strip C)) kw) \<and>
     (\<forall>p\<in>set injection_patterns. \<not> re_search p (upper (strip C)))"
proof (cases "find (keyword_hit (upper (strip C))) dangerous_keywords")
  case None
  then have "\<forall>kw\<in>set dangerous_keywords. \<not> keyword_hit (upper (strip C)) kw"
    by (simp add: find_keyword_None)
  then show ?thesis
    using None unfolding validate_sql_query_def Let_def empty_test
    by (simp add: list_ex_iff)
next
  case (Some kw)
  then have "kw \<in> set dangerous_keywords \<and> keyword_hit (upper (strip C)) kw"
    by (rule find_keyword_Some)
  then show ?thesis
    using Some unfolding validate_sql_query_def Let_def empty_test
    by auto
qed

lemma validate_forbidden_iff:
  assumes "strip q \<noteq> []" and "startswith (upper (strip q)) ''SELECT''"
  shows "(\<exists>kw\<in>set dangerous_keywords.
            validate_sql_query q = (False, ''Forbidden keyword detected: '' @ kw)) \<longleftrightarrow>
         (\<exists>kw\<in>set dangerous_keywords. keyword_hit (upper (strip q)) kw)"
proof (cases "find (keyword_hit (upper (strip q))) dangerous_keywords")
  case None
  then have "\<not> (\<exists>kw\<in>set dangerous_keywords. keyword_hit (upper (strip q)) kw)"
    by (simp add: find_keyword_None)
  moreover have "\<not> (\<exists>kw\<in>set dangerous_keywords.
          validate_sql_query q = (False, ''Forbidden keyword detected: '' @ kw))"
    using None assms unfolding validate_sql_query_def Let_def empty_test by auto
  ultimately show ?thesis by blast
next
  case (Some kw)
  then have "kw \<in> set dangerous_keywords \<and> keyword_hit (upper (strip q)) kw"
    by (rule find_keyword_Some)
  moreover have "validate_sql_query q = (False, ''Forbidden keyword detected: '' @ kw)"
    using Some assms unfolding validate_sql_query_def Let_def empty_test by simp
  ultimately show ?thesis by blast
qed

section \<open>Claims about the validator\<close>




text \<open>
  C9, as amended. For a candidate that is not empty after trimming and starts with
  \<open>SELECT\<close>, \<open>validate_sql_query\<close> reports a forbidden keyword if and only if some
  forbidden keyword occurs in the uppercased candidate between space characters
  (the ends of the string count as spaces) or leads it, followed by a space. A keyword
  inside a longer identifier (\<open>CREATE\<close> in \<open>created_date\<close>), or set off by a tab or a
  line feed, is not reported.
\<close>

theorem forbidden_keyword_rejection_iff:
  "(strip q \<noteq> [] \<and> startswith (upper (strip q)) ''SELECT'' \<longrightarrow>
      ((\<exists>kw\<in>set dangerous_keywords.
          validate_sql_query q = (False, ''Forbidden keyword detected: '' @ kw)) \<longleftrightarrow>
       (\<exists>kw\<in>set dangerous_keywords.
          delimited_by is_blank kw (upper (strip q)) \<or>
          startswith (upper (strip q)) (kw @ '' '')))) \<and>
   validate_sql_query ''SELECT created_date FROM products'' =
     (True, ''Query passed security validation'') \<and>
   validate_sql_query (''SELECT name'' @ [CHR 0x09] @ ''DELETE'' @ [CHR 0x0A] @ ''FROM customers'') =
     (True, ''Query passed security validation'')"
proof -
  have hit: "\<And>s kw. keyword_hit s kw \<longleftrightarrow>
      delimited_by is_blank kw s \<or> startswith s (kw @ '' '')"
    using keyword_hit_iff leading_imp_delimited by blast
  have "strip q \<noteq> [] \<and> startswith (upper (strip q)) ''SELECT'' \<longrightarrow>
      ((\<exists>kw\<in>set dangerous_keywords.
          validate_sql_query q = (False, ''Forbidden keyword detected: '' @ kw)) \<longleftrightarrow>
       (\<exists>kw\<in>set dangerous_keywords.
          delimited_by is_blank kw (upper (strip q)) \<or>
          startswith (upper (strip q)) (kw @ '' '')))"
    using validate_forbidden_iff [of q] unfolding hit by blast
  moreover have "validate_sql_query ''SELECT created_date FROM products'' =
     (True, ''Query passed security validation'')"
    by code_simp
  moreover have "validate_sql_query
      (''SELECT name'' @ [CHR 0x09] @ ''DELETE'' @ [CHR 0x0A] @ ''FROM customers'') =
     (True, ''Query passed security validation'')"
    by code_simp
  ultimately show ?thesis by blast
qed

text \<open>
  The theorem at a candidate that ends in \<open>DROP\<close> after a space: the occurrence gives
  the rejection.
\<close>

theorem forbidden_keyword_rejection_iff_witness:
  "strip ''select * from customers where name = DROP'' \<noteq> [] \<and>
   startswith (upper (strip ''select * from customers where name = DROP'')) ''SELECT'' \<and>
   delimited_by is_blank ''DROP'' (upper (strip ''select * from customers where name = DROP'')) \<and>
   (\<exists>kw\<in>set dangerous_keywords.
      validate_sql_query ''select * from customers where name = DROP'' =
        (False, ''Forbidden keyword detected: '' @ kw))"
proof -
  have a: "strip ''select * from customers where name = DROP'' \<noteq> []" by code_simp
  have b: "startswith (upper (strip ''select * from customers where name = DROP'')) ''SELECT''"
    by code_simp
  have n: "upper (strip ''select * from customers where name = DROP'') =
     ''SELECT * FROM CUSTOMERS WHERE NAME = '' @ ''DROP'' @ []" by code_simp
  have "delimited_by is_blank ''DROP'' (''SELECT * FROM CUSTOMERS WHERE NAME = '' @ ''DROP'' @ [])"
    unfolding delimited_by_def is_blank_def
    by (rule exI [of _ "''SELECT * FROM CUSTOMERS WHERE NAME = ''"], rule exI [of _ "[]"]) simp
  then have d: "delimited_by is_blank ''DROP''
      (upper (strip ''select * from customers where name = DROP''))"
    unfolding n .
  have kw: "''DROP'' \<in> set dangerous_keywords" by (simp add: dangerous_keywords_def)
  from forbidden_keyword_rejection_iff [of "''select * from customers where name = DROP''"]
    a b d kw
  show ?thesis by blast
qed

text \<open>
  C9 as it is worded, for every candidate, fails: \<open>DROP\<close> leads the candidate below,
  followed by a space, and the rejection reported is the one for statements that are
  not \<open>SELECT\<close>.
\<close>

theorem non_select_reports_no_forbidden_keyword:
  "''DROP'' \<in> set dangerous_keywords \<and>
   startswith (upper (strip ''DROP TABLE customers'')) (''DROP'' @ '' '') \<and>
   validate_sql_query ''DROP TABLE customers'' =
     (False, ''Security: Only SELECT queries are allowed'')"
proof -
  have "''DROP'' \<in> set dangerous_keywords" by (simp add: dangerous_keywords_def)
  moreover have "startswith (upper (strip ''DROP TABLE customers'')) (''DROP'' @ '' '')"
    by code_simp
  moreover have "validate_sql_query ''DROP TABLE customers'' =
     (False, ''Security: Only SELECT queries are allowed'')"
    by code_simp
  ultimately show ?thesis by blast
qed

section \<open>The request handler, step by step\<close>

lemma message_member: "map_of members ''message'' = Some m \<Longrightarrow> members \<noteq> []"
  by auto





section \<open>Claims about the request handler\<close>











text \<open>
  C7. The verdict on every candidate is the verdict of the four generic rules, so
  the candidate \<open>SELECT\<close> has no rule of its own; under these rules it is accepted.
  When the model path returns it, the handler goes on to the executor, and the
  response is a failure only when the storage engine fails, with its message.
\<close>

theorem validate_bare_select:
  "(fst (validate_sql_query q) \<longleftrightarrow>
      strip q \<noteq> [] \<and> startswith (upper (strip q)) ''SELECT'' \<and>
      \<not> list_ex (keyword_hit (upper (strip q))) dangerous_keywords \<and>
      \<not> list_ex (\<lambda>p. re_search p (upper (strip q))) injection_patterns) \<and>
   validate_sql_query ''SELECT'' = (True, ''Query passed security validation'') \<and>
   (map_of members ''message'' = Some m \<and> strip m \<noteq> [] \<and> groq_client e \<and>
    model_reply e (strip m) = Some content \<and> sanitize content = ''SELECT'' \<longrightarrow>
      snd (chat e (Some members)) =
        [ModelCall (strip m), ValidateCall ''SELECT'', ExecuteCall ''SELECT''] \<and>
      (success (fst (chat e (Some members))) \<longleftrightarrow> (\<exists>rows. execute_query e ''SELECT'' = Inr rows)) \<and>
      (\<forall>msg. execute_query e ''SELECT'' = Inl msg \<longrightarrow>
         error (fst (chat e (Some members))) = Some msg))"
proof -
  have generic: "fst (validate_sql_query q) \<longleftrightarrow>
      strip q \<noteq> [] \<and> startswith (upper (strip q)) ''SELECT'' \<and>
      \<not> list_ex (keyword_hit (upper (strip q))) dangerous_keywords \<and>
      \<not> list_ex (\<lambda>p. re_search p (upper (strip q))) injection_patterns"
    unfolding validate_accepted_iff list_ex_iff by blast
  have bare: "validate_sql_query ''SELECT'' = (True, ''Query passed security validation'')"
    by code_simp
  have run: "snd (chat e (Some members)) =
        [ModelCall (strip m), ValidateCall ''SELECT'', ExecuteCall ''SELECT''] \<and>
      (success (fst (chat e (Some members))) \<longleftrightarrow> (\<exists>rows. execute_query e ''SELECT'' = Inr rows)) \<and>
      (\<forall>msg. execute_query e ''SELECT'' = Inl msg \<longrightarrow>
         error (fst (chat e (Some members))) = Some msg)"
    if h: "map_of members ''message'' = Some m" "strip m \<noteq> []" "groq_client e"
      "model_reply e (strip m) = Some content" "sanitize content = ''SELECT''"
  proof -
    have g: "generate_sql_from_natural_language e (strip m) = (Some ''SELECT'', [ModelCall (strip m)])"
      using h(3,4,5) unfolding generate_sql_from_natural_language_def by simp
    show ?thesis
      using h(1,2) message_member [OF h(1)]
      unfolding chat_def Let_def
      by (cases "execute_query e ''SELECT''") (simp_all add: g bare failure_def)
  qed
  from generic bare run show ?thesis by blast
qed

text \<open>
  The theorem with a client that answers \<open>SELECT\<close> and a storage engine that rejects
  the statement.
\<close>

theorem validate_bare_select_witness:
  "snd (chat (online_env ''SELECT'') (Some [(''message'', ''anything'')])) =
     [ModelCall ''anything'', ValidateCall ''SELECT'', ExecuteCall ''SELECT''] \<and>
   \<not> success (fst (chat (online_env ''SELECT'') (Some [(''message'', ''anything'')]))) \<and>
   error (fst (chat (online_env ''SELECT'') (Some [(''message'', ''anything'')]))) =
     Some ''Database error: incomplete input''"
proof -
  let ?e = "online_env ''SELECT''"
  have a: "map_of [(''message'', ''anything'')] ''message'' = Some ''anything''" by simp
  have s: "strip ''anything'' = ''anything''" by code_simp
  have b: "strip ''anything'' \<noteq> []" unfolding s by simp
  have c: "groq_client ?e" by (simp add: online_env_def)
  have d: "model_reply ?e (strip ''anything'') = Some ''SELECT''" by (simp add: online_env_def)
  have f: "sanitize ''SELECT'' = ''SELECT''" by code_simp
  have x: "execute_query ?e ''SELECT'' = Inl ''Database error: incomplete input''"
    by (simp add: execute_query_def online_env_def offline_env_def)
  from validate_bare_select [of _ "[(''message'', ''anything'')]" "''anything''" ?e "''SELECT''"]
    a b c d f x
  show ?thesis unfolding s by simp
qed

section \<open>Claims about the fallback generator\<close>

lemma fallback_first_match:
  "generate_fallback_sql Q = first_match fallback_table (lower Q)"
  unfolding generate_fallback_sql_def fallback_table_def Let_def
  by simp

lemma fallback_logged_result:
  "fst (generate_fallback_sql_logged l Q) = generate_fallback_sql Q"
  unfolding generate_fallback_sql_logged_def by (simp split: option.splits)

lemma first_match_first:
  assumes "i < length t" and "fst (t ! i) q" and "\<forall>j<i. \<not> fst (t ! j) q"
  shows "first_match t q = Some (snd (t ! i) q)"
  using assms
proof (induction t arbitrary: i)
  case Nil
  then show ?case by simp
next
  case (Cons entry t)
  obtain fires statement where entry: "entry = (fires, statement)" by (cases entry)
  show ?case
  proof (cases i)
    case 0
    with Cons.prems entry show ?thesis by simp
  next
    case (Suc k)
    with Cons.prems have "\<not> fst ((entry # t) ! 0) q" by blast
    then have nf: "\<not> fires q" using entry by simp
    from Suc Cons.prems have "k < length t" and "fst (t ! k) q" by simp_all
    moreover from Suc Cons.prems have "\<forall>j<k. \<not> fst (t ! j) q" by auto
    ultimately have "first_match t q = Some (snd (t ! k) q)" by (rule Cons.IH)
    with nf entry Suc show ?thesis by simp
  qed
qed

lemma first_match_none:
  assumes "\<forall>j<length t. \<not> fst (t ! j) q"
  shows "first_match t q = None"
  using assms
proof (induction t)
  case Nil
  then show ?case by simp
next
  case (Cons entry t)
  obtain fires statement where entry: "entry = (fires, statement)" by (cases entry)
  from Cons.prems have "\<not> fst ((entry # t) ! 0) q" by blast
  then have nf: "\<not> fires q" using entry by simp
  from Cons.prems have "\<forall>j<length t. \<not> fst (t ! j) q" by auto
  then have "first_match t q = None" by (rule Cons.IH)
  with nf entry show ?case by simp
qed

text \<open>
  C4. The result of \<open>generate_fallback_sql\<close> depends on the question alone: what was
  logged before does not change it, and a second call after the first returns the
  same result. The result is that of the first trigger of the ordered table that
  fires on the lowercased question, and \<open>None\<close> when no trigger fires.
\<close>

theorem fallback_deterministic:
  "fst (generate_fallback_sql_logged log1 Q) = fst (generate_fallback_sql_logged log2 Q) \<and>
   fst (generate_fallback_sql_logged (snd (generate_fallback_sql_logged log1 Q)) Q) =
     fst (generate_fallback_sql_logged log1 Q) \<and>
   generate_fallback_sql Q = first_match fallback_table (lower Q) \<and>
   (\<forall>i<length fallback_table.
      fst (fallback_table ! i) (lower Q) \<and> (\<forall>j<i. \<not> fst (fallback_table ! j) (lower Q)) \<longrightarrow>
      generate_fallback_sql Q = Some (snd (fallback_table ! i) (lower Q))) \<and>
   ((\<forall>j<length fallback_table. \<not> fst (fallback_table ! j) (lower Q)) \<longrightarrow>
      generate_fallback_sql Q = None)"
  using first_match_first [of _ fallback_table "lower Q"] first_match_none [of fallback_table "lower Q"]
  by (simp add: fallback_logged_result fallback_first_match)

text \<open>
  The theorem at a question on which the third and the last trigger fire: the third
  one wins.
\<close>

theorem fallback_deterministic_witness:
  "fst (generate_fallback_sql_logged [] ''Top customers and all orders'') =
     fst (generate_fallback_sql_logged [''earlier warning''] ''Top customers and all orders'') \<and>
   generate_fallback_sql ''Top customers and all orders'' =
     Some ''SELECT * FROM orders ORDER BY order_date DESC''"
proof -
  let ?q = "lower ''Top customers and all orders''"
  have i: "(2::nat) < length fallback_table" by (simp add: fallback_table_def)
  have f: "fst (fallback_table ! 2) ?q" by code_simp
  have n0: "\<not> fst (fallback_table ! 0) ?q" by code_simp
  have n1: "\<not> fst (fallback_table ! 1) ?q" by code_simp
  have n: "\<forall>j<2. \<not> fst (fallback_table ! j) ?q"
    using n0 n1 by (auto simp: less_Suc_eq numeral_2_eq_2)
  have st: "snd (fallback_table ! 2) ?q = ''SELECT * FROM orders ORDER BY order_date DESC''"
    by code_simp
  from fallback_deterministic [of "[]" "''Top customers and all orders''" "[''earlier warning'']"]
    i f n st
  show ?thesis by metis
qed


lemma fallback_depends_on_lower:
  "lower Q = lower Q' \<Longrightarrow> generate_fallback_sql Q = generate_fallback_sql Q'"
  unfolding generate_fallback_sql_def by simp

text \<open>
  C5. For the question \<open>Show all customers\<close>, in any mix of upper and lower case, the
  fallback generator returns \<open>SELECT * FROM customers\<close>; the question has no
  \<open>active\<close> in it, and the validator accepts the statement.
\<close>

theorem fallback_show_all_customers:
  "generate_fallback_sql ''Show all customers'' = Some ''SELECT * FROM customers'' \<and>
   (lower Q = lower ''Show all customers'' \<longrightarrow>
      generate_fallback_sql Q = Some ''SELECT * FROM customers'') \<and>
   \<not> str_in ''active'' (lower ''Show all customers'') \<and>
   validate_sql_query ''SELECT * FROM customers'' = (True, ''Query passed security validation'')"
proof -
  have a: "generate_fallback_sql ''Show all customers'' = Some ''SELECT * FROM customers''"
    by code_simp
  have b: "lower Q = lower ''Show all customers'' \<longrightarrow>
      generate_fallback_sql Q = Some ''SELECT * FROM customers''"
    using fallback_depends_on_lower [of Q "''Show all customers''"] a by simp
  have c: "\<not> str_in ''active'' (lower ''Show all customers'')" by code_simp
  have d: "validate_sql_query ''SELECT * FROM customers'' =
      (True, ''Query passed security validation'')" by code_simp
  from a b c d show ?thesis by blast
qed

text \<open>The theorem at another spelling of the question.\<close>

theorem fallback_show_all_customers_witness:
  "lower ''SHOW ALL Customers'' = lower ''Show all customers'' \<and>
   generate_fallback_sql ''SHOW ALL Customers'' = Some ''SELECT * FROM customers''"
proof -
  have l: "lower ''SHOW ALL Customers'' = lower ''Show all customers''" by code_simp
  from fallback_show_all_customers [of "''SHOW ALL Customers''"] l show ?thesis by blast
qed

text \<open>
  C10. A question with \<open>all employees\<close>, \<open>show employees\<close> or \<open>list employees\<close> in it,
  on which no earlier trigger fires, gets the listing of the active employees only.
  The triggers for customers, orders and products give a listing with no \<open>WHERE\<close>
  clause when their modifier word is absent.
\<close>

theorem fallback_employees_active_only:
  "(any_in [''all employees'', ''show employees'', ''list employees''] (lower Q) \<and>
    \<not> any_in [''all customers'', ''show customers'', ''list customers''] (lower Q) \<and>
    \<not> any_in [''count customers'', ''how many customers''] (lower Q) \<and>
    \<not> any_in [''all orders'', ''show orders'', ''list orders''] (lower Q) \<and>
    \<not> any_in [''count orders'', ''how many orders''] (lower Q) \<and>
    \<not> any_in [''all products'', ''show products'', ''list products''] (lower Q) \<longrightarrow>
      generate_fallback_sql Q =
        Some (''SELECT * FROM employees WHERE status = 'active'' @ [CHR 0x27])) \<and>
   (any_in [''all customers'', ''show customers'', ''list customers''] (lower Q) \<and>
    \<not> str_in ''active'' (lower Q) \<longrightarrow>
      generate_fallback_sql Q = Some ''SELECT * FROM customers'') \<and>
   (any_in [''all orders'', ''show orders'', ''list orders''] (lower Q) \<and>
    \<not> any_in [''all customers'', ''show customers'', ''list customers''] (lower Q) \<and>
    \<not> any_in [''count customers'', ''how many customers''] (lower Q) \<longrightarrow>
      generate_fallback_sql Q = Some ''SELECT * FROM orders ORDER BY order_date DESC'') \<and>
   (any_in [''all products'', ''show products'', ''list products''] (lower Q) \<and>
    \<not> any_in [''all customers'', ''show customers'', ''list customers''] (lower Q) \<and>
    \<not> any_in [''count customers'', ''how many customers''] (lower Q) \<and>
    \<not> any_in [''all orders'', ''show orders'', ''list orders''] (lower Q) \<and>
    \<not> any_in [''count orders'', ''how many orders''] (lower Q) \<and>
    \<not> str_in ''electronics'' (lower Q) \<longrightarrow>
      generate_fallback_sql Q = Some ''SELECT * FROM products'') \<and>
   str_in ''WHERE'' (''SELECT * FROM employees WHERE status = 'active'' @ [CHR 0x27]) \<and>
   \<not> str_in ''WHERE'' ''SELECT * FROM customers'' \<and>
   \<not> str_in ''WHERE'' ''SELECT * FROM orders ORDER BY order_date DESC'' \<and>
   \<not> str_in ''WHERE'' ''SELECT * FROM products''"
proof -
  have chain: "(any_in [''all employees'', ''show employees'', ''list employees''] (lower Q) \<and>
    \<not> any_in [''all customers'', ''show customers'', ''list customers''] (lower Q) \<and>
    \<not> any_in [''count customers'', ''how many customers''] (lower Q) \<and>
    \<not> any_in [''all orders'', ''show orders'', ''list orders''] (lower Q) \<and>
    \<not> any_in [''count orders'', ''how many orders''] (lower Q) \<and>
    \<not> any_in [''all products'', ''show products'', ''list products''] (lower Q) \<longrightarrow>
      generate_fallback_sql Q =
        Some (''SELECT * FROM employees WHERE status = 'active'' @ [CHR 0x27])) \<and>
   (any_in [''all customers'', ''show customers'', ''list customers''] (lower Q) \<and>
    \<not> str_in ''active'' (lower Q) \<longrightarrow>
      generate_fallback_sql Q = Some ''SELECT * FROM customers'') \<and>
   (any_in [''all orders'', ''show orders'', ''list orders''] (lower Q) \<and>
    \<not> any_in [''all customers'', ''show customers'', ''list customers''] (lower Q) \<and>
    \<not> any_in [''count customers'', ''how many customers''] (lower Q) \<longrightarrow>
      generate_fallback_sql Q = Some ''SELECT * FROM orders ORDER BY order_date DESC'') \<and>
   (any_in [''all products'', ''show products'', ''list products''] (lower Q) \<and>
    \<not> any_in [''all customers'', ''show customers'', ''list customers''] (lower Q) \<and>
    \<not> any_in [''count customers'', ''how many customers''] (lower Q) \<and>
    \<not> any_in [''all orders'', ''show orders'', ''list orders''] (lower Q) \<and>
    \<not> any_in [''count orders'', ''how many orders''] (lower Q) \<and>
    \<not> str_in ''electronics'' (lower Q) \<longrightarrow>
      generate_fallback_sql Q = Some ''SELECT * FROM products'')"
    unfolding generate_fallback_sql_def Let_def
      sql_active_employees_def sql_all_customers_def sql_all_orders_def sql_all_products_def
    by simp
  have w1: "str_in ''WHERE'' (''SELECT * FROM employees WHERE status = 'active'' @ [CHR 0x27])"
    by code_simp
  have w2: "\<not> str_in ''WHERE'' ''SELECT * FROM customers''" by code_simp
  have w3: "\<not> str_in ''WHERE'' ''SELECT * FROM orders ORDER BY order_date DESC''" by code_simp
  have w4: "\<not> str_in ''WHERE'' ''SELECT * FROM products''" by code_simp
  from chain w1 w2 w3 w4 show ?thesis by blast
qed

text \<open>The theorem at a question about employees and at one about products.\<close>

theorem fallback_employees_active_only_witness:
  "generate_fallback_sql ''Please list employees'' =
     Some (''SELECT * FROM employees WHERE status = 'active'' @ [CHR 0x27]) \<and>
   generate_fallback_sql ''List products'' = Some ''SELECT * FROM products''"
proof -
  let ?q = "lower ''Please list employees''"
  have e: "any_in [''all employees'', ''show employees'', ''list employees''] ?q" by code_simp
  have n1: "\<not> any_in [''all customers'', ''show customers'', ''list customers''] ?q" by code_simp
  have n2: "\<not> any_in [''count customers'', ''how many customers''] ?q" by code_simp
  have n3: "\<not> any_in [''all orders'', ''show orders'', ''list orders''] ?q" by code_simp
  have n4: "\<not> any_in [''count orders'', ''how many orders''] ?q" by code_simp
  have n5: "\<not> any_in [''all products'', ''show products'', ''list products''] ?q" by code_simp
  let ?p = "lower ''List products''"
  have p: "any_in [''all products'', ''show products'', ''list products''] ?p" by code_simp
  have m1: "\<not> any_in [''all customers'', ''show customers'', ''list customers''] ?p" by code_simp
  have m2: "\<not> any_in [''count customers'', ''how many customers''] ?p" by code_simp
  have m3: "\<not> any_in [''all orders'', ''show orders'', ''list orders''] ?p" by code_simp
  have m4: "\<not> any_in [''count orders'', ''how many orders''] ?p" by code_simp
  have m5: "\<not> str_in ''electronics'' ?p" by code_simp
  from fallback_employees_active_only [of "''Please list employees''"] e n1 n2 n3 n4 n5
  have a: "generate_fallback_sql ''Please list employees'' =
     Some (''SELECT * FROM employees WHERE status = 'active'' @ [CHR 0x27])" by blast
  from fallback_employees_active_only [of "''List products''"] p m1 m2 m3 m4 m5
  have b: "generate_fallback_sql ''List products'' = Some ''SELECT * FROM products''" by blast
  from a b show ?thesis by blast
qed

section \<open>Claims about the query executor\<close>

lemma format_step_normalized:
  "format_step e (k, v) row =
     (if needs_rounding (float_str e) v then AList.update k (normalized e v) row else row)"
  unfolding format_step_def normalized_def by (cases v) simp_all

lemma normalized_unchanged: "\<not> needs_rounding (float_str e) v \<Longrightarrow> normalized e v = v"
  unfolding normalized_def by (cases v) simp_all

lemma update_fresh_middle:
  assumes "k \<notin> fst ` set before"
  shows "AList.update k w (before @ (k, v) # rest) = before @ (k, w) # rest"
  using assms by (induction before) auto

lemma format_fold:
  assumes "distinct (map fst (before @ items))"
  shows "fold (format_step e) items (before @ items) =
         before @ map (\<lambda>(k, v). (k, normalized e v)) items"
  using assms
proof (induction items arbitrary: before)
  case Nil
  then show ?case by simp
next
  case (Cons item items)
  obtain k v where item: "item = (k, v)" by (cases item)
  from Cons.prems item have fresh: "k \<notin> fst ` set before" by auto
  have step: "format_step e item (before @ item # items) = (before @ [(k, normalized e v)]) @ items"
    unfolding item format_step_normalized
    using fresh by (simp add: update_fresh_middle normalized_unchanged)
  from Cons.prems item have d: "distinct (map fst ((before @ [(k, normalized e v)]) @ items))"
    by auto
  show ?case
    using Cons.IH [OF d] step item by simp
qed

lemma format_row_map:
  assumes "distinct (map fst row)"
  shows "format_row e row = map (\<lambda>(k, v). (k, normalized e v)) row"
  using format_fold [of "[]" row e] assms unfolding format_row_def by simp

text \<open>
  C6. After a successful \<open>execute_query\<close>, every row is the row of the storage engine
  with each column value normalized: a float whose text has a \<open>.\<close> is replaced by
  the float rounded to two places, and every other value (an integer, a text, a
  blob, \<open>None\<close>, a float whose text has no \<open>.\<close>) stays as it is. The keys of a row are
  distinct, as in every \<open>dict\<close>.
\<close>

theorem execute_query_rounds_floats:
  assumes "db_execute e sql = Inr rows" and "\<forall>row\<in>set rows. distinct (map fst row)"
  shows "execute_query e sql = Inr (map (map (\<lambda>(k, v). (k, normalized e v))) rows) \<and>
         (\<forall>x. normalized e (SqlFloat x) =
            (if str_in ''.'' (float_str e x) then SqlFloat (float_round2 e x) else SqlFloat x)) \<and>
         (\<forall>i. normalized e (SqlInt i) = SqlInt i) \<and>
         (\<forall>t. normalized e (SqlText t) = SqlText t) \<and>
         (\<forall>b. normalized e (SqlBlob b) = SqlBlob b) \<and>
         normalized e SqlNull = SqlNull"
  using assms unfolding execute_query_def by (simp add: format_row_map normalized_def)

text \<open>
  The theorem at a row with a price that is rounded and a float, printed with an
  exponent, that is not.
\<close>

theorem execute_query_rounds_floats_witness:
  "execute_query offline_env ''SELECT * FROM products'' =
     Inr [[(''id'', SqlInt 3), (''name'', SqlText ''Wireless Mouse Pro''),
           (''price'', SqlFloat ''79.99''), (''weight'', SqlFloat ''1e+16''),
           (''supplier'', SqlNull)]]"
proof -
  have a: "db_execute offline_env ''SELECT * FROM products'' = Inr [sample_row]"
    by (simp add: offline_env_def)
  have b: "\<forall>row\<in>set [sample_row]. distinct (map fst row)"
    by (simp add: sample_row_def)
  have c: "map (map (\<lambda>(k, v). (k, normalized offline_env v))) [sample_row] =
     [[(''id'', SqlInt 3), (''name'', SqlText ''Wireless Mouse Pro''),
           (''price'', SqlFloat ''79.99''), (''weight'', SqlFloat ''1e+16''),
           (''supplier'', SqlNull)]]"
    by (simp add: sample_row_def normalized_def offline_env_def startswith_def)
  from execute_query_rounds_floats [OF a b] show ?thesis unfolding c by blast
qed


end
